theory Spec2Isabelle
  imports
    Complex_Main
    "HOL-Library.Sublist"
    "HOL-Library.List_Lexorder"
begin

section \<open>The ESP TOC visualizer: filtering, facets and statistics\<close>

text \<open>
  The component \<^verbatim>\<open>ESPTOCVisualizer\<close> of \<^verbatim>\<open>src/App.js\<close> keeps the rows of a spreadsheet
  and four filter inputs in React state, and derives from them, each in a \<^verbatim>\<open>useMemo\<close>:
  the filtered rows (\<^verbatim>\<open>filteredData\<close>), three option lists for the dropdowns
  (\<^verbatim>\<open>universities\<close>, \<^verbatim>\<open>departments\<close>, \<^verbatim>\<open>programs\<close>) and four statistics (\<^verbatim>\<open>stats\<close>).
  Each derived value is modelled as a function of the dependency list of its
  \<^verbatim>\<open>useMemo\<close>.
\<close>

subsection \<open>Strings, values and rows\<close>

text \<open>
  A JavaScript string is a sequence of 16-bit code units; it is modelled as the list of
  its code units, as natural numbers. Lists are compared lexicographically, unit by
  unit, which is how JavaScript compares strings. \<open>str\<close> gives the code units of a
  literal of ASCII characters.
\<close>

type_synonym jsstring = "nat list"

definition str :: "string \<Rightarrow> jsstring" where
  "str s = map of_char s"

text \<open>
  A cell of a row is absent (reading it gives \<^verbatim>\<open>undefined\<close>), \<^verbatim>\<open>null\<close>, or holds a value.
  The four text columns hold strings and \<^verbatim>\<open>VALOR_MATRICULA\<close> holds a finite number,
  given as the rational it denotes.
\<close>

datatype 'a jsval = Undefined | Null | Val 'a

record item =
  NOMBRE_IES :: "jsstring jsval"
  NOMBRE_DEL_PROGRAMA :: "jsstring jsval"
  DEPARTAMENTO :: "jsstring jsval"
  MUNICIPIO :: "jsstring jsval"
  VALOR_MATRICULA :: "rat jsval"

datatype js_error = TypeError

subsection \<open>Numbers\<close>

text \<open>
  A JavaScript number is an IEEE 754 double. A finite double is modelled by the rational
  it denotes, \<open>Finite 0\<close> being \<open>+0\<close> and \<open>NegZero\<close> being \<open>-0\<close>; the other values are
  \<^verbatim>\<open>NaN\<close> and the two infinities. Every arithmetic operation gives the exact result
  rounded to the nearest double, a tie going to the double with the even significand.
\<close>

datatype jsnumber = Finite rat | NegZero | NaN | PosInfinity | NegInfinity

text \<open>The number of binary digits of a natural number.\<close>

fun bit_length :: "nat \<Rightarrow> nat" where
  "bit_length n = (if n = 0 then 0 else Suc (bit_length (n div 2)))"

declare bit_length.simps [simp del]

text \<open>For a positive rational \<open>a\<close>, the exponent \<open>e\<close> with \<^verbatim>\<open>2^e <= a < 2^(e+1)\<close>.\<close>

definition floor_log2 :: "rat \<Rightarrow> int" where
  "floor_log2 a =
     (if 1 \<le> a then int (bit_length (nat \<lfloor>a\<rfloor>)) - 1
      else - int (bit_length (nat (\<lceil>1 / a\<rceil> - 1))))"

text \<open>The nearest integer, a tie going to the even one.\<close>

definition round_half_even :: "rat \<Rightarrow> int" where
  "round_half_even x =
     (let f = \<lfloor>x\<rfloor>; r = x - of_int f
      in if r < 1 / 2 then f else if 1 / 2 < r then f + 1 else if even f then f else f + 1)"

text \<open>Rounding an exact result to a double. The doubles with exponent \<open>e\<close> are the
  multiples of \<^verbatim>\<open>2^(e-52)\<close>; the least exponent is \<open>-1022\<close>, below which the
  subnormal doubles keep its spacing; a rounded magnitude of \<^verbatim>\<open>2^1024\<close> or more is
  an infinity, and a non-zero result that rounds to zero keeps its sign.\<close>

definition round_double :: "rat \<Rightarrow> jsnumber" where
  "round_double x =
     (if x = 0 then Finite 0
      else
        let a = \<bar>x\<bar>;
            e = max (floor_log2 a) (- 1022);
            ulp = 2 powi (e - 52);
            m = of_int (round_half_even (a / ulp)) * ulp
        in if 2 powi 1024 \<le> m then (if 0 < x then PosInfinity else NegInfinity)
           else if m = 0 then (if 0 < x then Finite 0 else NegZero)
           else Finite (if 0 < x then m else - m))"

text \<open>The greatest double, \<^verbatim>\<open>Number.MAX_VALUE\<close>.\<close>

definition MAX_VALUE :: rat where
  "MAX_VALUE = (2 ^ 53 - 1) * 2 ^ 971"

text \<open>\<^verbatim>\<open>x + y\<close> on numbers.\<close>

fun add_js :: "jsnumber \<Rightarrow> jsnumber \<Rightarrow> jsnumber" where
  "add_js NaN y = NaN"
| "add_js x NaN = NaN"
| "add_js PosInfinity NegInfinity = NaN"
| "add_js NegInfinity PosInfinity = NaN"
| "add_js PosInfinity y = PosInfinity"
| "add_js x PosInfinity = PosInfinity"
| "add_js NegInfinity y = NegInfinity"
| "add_js x NegInfinity = NegInfinity"
| "add_js NegZero NegZero = NegZero"
| "add_js NegZero (Finite b) = round_double b"
| "add_js (Finite a) NegZero = round_double a"
| "add_js (Finite a) (Finite b) = round_double (a + b)"

text \<open>\<^verbatim>\<open>x / n\<close> for a number \<open>x\<close> and the length \<open>n\<close> of an array, which is a
  non-negative integer below \<^verbatim>\<open>2^32\<close> and so a double; a length \<open>0\<close> is \<open>+0\<close>.\<close>

fun divide_js :: "jsnumber \<Rightarrow> nat \<Rightarrow> jsnumber" where
  "divide_js NaN n = NaN"
| "divide_js PosInfinity n = PosInfinity"
| "divide_js NegInfinity n = NegInfinity"
| "divide_js NegZero n = (if n = 0 then NaN else NegZero)"
| "divide_js (Finite a) n =
     (if n = 0 then (if a = 0 then NaN else if 0 < a then PosInfinity else NegInfinity)
      else round_double (a / of_nat n))"

subsection \<open>String methods\<close>

text \<open>\<^verbatim>\<open>String.prototype.toLowerCase\<close> is the lower-casing of the platform, by the
  Unicode case mapping. It is the parameter \<open>toLowerCase\<close> of the definitions that call
  it, and the theorems hold for every function in its place.\<close>

text \<open>\<^verbatim>\<open>s.includes(t)\<close>: \<open>t\<close> occurs in \<open>s\<close> as a contiguous block.\<close>

definition includes_js :: "jsstring \<Rightarrow> jsstring \<Rightarrow> bool" where
  "includes_js s t = sublist t s"

text \<open>The method call \<^verbatim>\<open>v.toLowerCase()\<close> on the value of a cell: on
  \<^verbatim>\<open>undefined\<close> and \<^verbatim>\<open>null\<close> a property read raises \<^verbatim>\<open>TypeError\<close>.\<close>

fun call_toLowerCase :: "(jsstring \<Rightarrow> jsstring) \<Rightarrow> jsstring jsval \<Rightarrow> js_error + jsstring" where
  "call_toLowerCase toLowerCase Undefined = Inl TypeError"
| "call_toLowerCase toLowerCase Null = Inl TypeError"
| "call_toLowerCase toLowerCase (Val s) = Inr (toLowerCase s)"

text \<open>\<^verbatim>\<open>v?.toLowerCase().includes(searchTerm.toLowerCase())\<close>: the optional chain
  stops at an \<^verbatim>\<open>undefined\<close> or \<^verbatim>\<open>null\<close> receiver and the whole chain is
  \<^verbatim>\<open>undefined\<close>, which counts as false where it is used.\<close>

definition field_includes ::
  "(jsstring \<Rightarrow> jsstring) \<Rightarrow> jsstring jsval \<Rightarrow> jsstring \<Rightarrow> js_error + bool" where
  "field_includes toLowerCase v searchTerm =
     (if v = Undefined \<or> v = Null then Inr False
      else (case call_toLowerCase toLowerCase v of
              Inl e \<Rightarrow> Inl e
            | Inr s \<Rightarrow> Inr (includes_js s (toLowerCase searchTerm))))"

text \<open>\<^verbatim>\<open>a || b\<close> on truth values: \<open>b\<close> is evaluated only when \<open>a\<close> is false, so an
  exception in \<open>b\<close> is raised only then.\<close>

definition or_js :: "js_error + bool \<Rightarrow> js_error + bool \<Rightarrow> js_error + bool" where
  "or_js a b = (case a of Inl e \<Rightarrow> Inl e | Inr x \<Rightarrow> if x then Inr True else b)"

text \<open>\<^verbatim>\<open>v === selected\<close> for a cell and a string.\<close>

fun strict_equals :: "jsstring jsval \<Rightarrow> jsstring \<Rightarrow> bool" where
  "strict_equals (Val s) t = (s = t)"
| "strict_equals Undefined t = False"
| "strict_equals Null t = False"

subsection \<open>The filtered rows\<close>

definition matchesSearch :: "(jsstring \<Rightarrow> jsstring) \<Rightarrow> jsstring \<Rightarrow> item \<Rightarrow> js_error + bool" where
  "matchesSearch toLowerCase searchTerm item =
     or_js (Inr (searchTerm = []))
       (or_js (field_includes toLowerCase (NOMBRE_IES item) searchTerm)
         (or_js (field_includes toLowerCase (NOMBRE_DEL_PROGRAMA item) searchTerm)
           (or_js (field_includes toLowerCase (DEPARTAMENTO item) searchTerm)
                  (field_includes toLowerCase (MUNICIPIO item) searchTerm))))"

definition matchesUniversity :: "jsstring \<Rightarrow> item \<Rightarrow> bool" where
  "matchesUniversity selectedUniversity item =
     (selectedUniversity = [] \<or> strict_equals (NOMBRE_IES item) selectedUniversity)"

definition matchesDepartment :: "jsstring \<Rightarrow> item \<Rightarrow> bool" where
  "matchesDepartment selectedDepartment item =
     (selectedDepartment = [] \<or> strict_equals (DEPARTAMENTO item) selectedDepartment)"

definition matchesProgram :: "jsstring \<Rightarrow> item \<Rightarrow> bool" where
  "matchesProgram selectedProgram item =
     (selectedProgram = [] \<or> strict_equals (NOMBRE_DEL_PROGRAMA item) selectedProgram)"

text \<open>The callback of \<^verbatim>\<open>data.filter\<close>.\<close>

definition keeps ::
  "(jsstring \<Rightarrow> jsstring) \<Rightarrow> jsstring \<Rightarrow> jsstring \<Rightarrow> jsstring \<Rightarrow> jsstring \<Rightarrow> item
     \<Rightarrow> js_error + bool" where
  "keeps toLowerCase searchTerm selectedUniversity selectedDepartment selectedProgram item =
     (case matchesSearch toLowerCase searchTerm item of
        Inl e \<Rightarrow> Inl e
      | Inr ms \<Rightarrow>
          Inr (ms \<and> matchesUniversity selectedUniversity item
                  \<and> matchesDepartment selectedDepartment item
                  \<and> matchesProgram selectedProgram item))"

text \<open>\<^verbatim>\<open>Array.prototype.filter\<close>: the callback runs on the elements in order; an
  exception in it ends the whole call.\<close>

fun filter_js :: "('a \<Rightarrow> js_error + bool) \<Rightarrow> 'a list \<Rightarrow> js_error + 'a list" where
  "filter_js p [] = Inr []"
| "filter_js p (x # xs) =
     (case p x of
        Inl e \<Rightarrow> Inl e
      | Inr b \<Rightarrow>
          (case filter_js p xs of
             Inl e \<Rightarrow> Inl e
           | Inr ys \<Rightarrow> Inr (if b then x # ys else ys)))"

definition filteredData ::
  "(jsstring \<Rightarrow> jsstring) \<Rightarrow> item list \<Rightarrow> jsstring \<Rightarrow> jsstring \<Rightarrow> jsstring \<Rightarrow> jsstring
     \<Rightarrow> js_error + item list" where
  "filteredData toLowerCase data searchTerm selectedUniversity selectedDepartment selectedProgram =
     filter_js
       (keeps toLowerCase searchTerm selectedUniversity selectedDepartment selectedProgram) data"

subsection \<open>The option lists of the dropdowns\<close>

text \<open>\<^verbatim>\<open>new Set(xs)\<close> adds the elements in order and keeps the first occurrence of
  each; spreading the set gives them in insertion order, \<^verbatim>\<open>size\<close> is their number.\<close>

definition Set_add :: "'a list \<Rightarrow> 'a \<Rightarrow> 'a list" where
  "Set_add s x = (if x \<in> set s then s else s @ [x])"

definition new_Set :: "'a list \<Rightarrow> 'a list" where
  "new_Set xs = foldl Set_add [] xs"

text \<open>\<^verbatim>\<open>Array.prototype.sort\<close> without a comparator: \<^verbatim>\<open>undefined\<close> elements go to
  the end, the others are ordered by their string forms, and the sort is stable.\<close>

fun ToString :: "jsstring jsval \<Rightarrow> jsstring" where
  "ToString Undefined = str ''undefined''"
| "ToString Null = str ''null''"
| "ToString (Val s) = s"

definition sort_js :: "jsstring jsval list \<Rightarrow> jsstring jsval list" where
  "sort_js xs =
     sort_key ToString (filter (\<lambda>x. x \<noteq> Undefined) xs) @ filter (\<lambda>x. x = Undefined) xs"

definition universities :: "item list \<Rightarrow> jsstring jsval list" where
  "universities data = sort_js (new_Set (map NOMBRE_IES data))"

definition departments :: "item list \<Rightarrow> jsstring jsval list" where
  "departments data = sort_js (new_Set (map DEPARTAMENTO data))"

definition programs :: "item list \<Rightarrow> jsstring jsval list" where
  "programs data = sort_js (new_Set (map NOMBRE_DEL_PROGRAMA data))"

subsection \<open>The statistics\<close>

record statistics =
  totalPrograms :: nat
  uniqueUniversities :: nat
  uniqueDepartments :: nat
  avgMatricula :: jsnumber

text \<open>\<^verbatim>\<open>item.VALOR_MATRICULA || 0\<close>: a falsy left operand (\<^verbatim>\<open>undefined\<close>,
  \<^verbatim>\<open>null\<close>, \<open>0\<close>) gives the right one.\<close>

fun or_zero :: "rat jsval \<Rightarrow> rat" where
  "or_zero Undefined = 0"
| "or_zero Null = 0"
| "or_zero (Val v) = (if v = 0 then 0 else v)"

text \<open>The sum is the \<^verbatim>\<open>reduce\<close> from \<open>0\<close>, adding the rows from left to right in double
  arithmetic; the quotient is rounded once more.\<close>

definition stats :: "item list \<Rightarrow> statistics" where
  "stats filteredData' =
     \<lparr> totalPrograms = length filteredData',
       uniqueUniversities = length (new_Set (map NOMBRE_IES filteredData')),
       uniqueDepartments = length (new_Set (map DEPARTAMENTO filteredData')),
       avgMatricula =
         (if length filteredData' > 0
          then divide_js
                 (foldl (\<lambda>sum item. add_js sum (Finite (or_zero (VALOR_MATRICULA item))))
                    (Finite 0) filteredData')
                 (length filteredData')
          else Finite 0) \<rparr>"

subsection \<open>Formatting an amount\<close>

text \<open>\<^verbatim>\<open>formatCurrency\<close> is applied to a \<^verbatim>\<open>VALOR_MATRICULA\<close> cell and to the
  average. \<^verbatim>\<open>!value\<close> holds of \<^verbatim>\<open>undefined\<close>, \<^verbatim>\<open>null\<close>, the two zeros and \<^verbatim>\<open>NaN\<close>.
  The rendering by \<^verbatim>\<open>Intl.NumberFormat('es-CO', {style: 'currency', currency: 'COP',
  minimumFractionDigits: 0})\<close> belongs to the platform and is the parameter
  \<open>intl_format\<close>.\<close>

fun formatCurrency :: "(jsnumber \<Rightarrow> jsstring) \<Rightarrow> jsnumber jsval \<Rightarrow> jsstring" where
  "formatCurrency intl_format Undefined = str ''No disponible''"
| "formatCurrency intl_format Null = str ''No disponible''"
| "formatCurrency intl_format (Val n) =
     (if n = Finite 0 \<or> n = NegZero \<or> n = NaN then str ''No disponible''
      else intl_format n)"

subsection \<open>The state of the component and its handlers\<close>

text \<open>The seven \<^verbatim>\<open>useState\<close> cells. The rows are stored once, when the file has been
  read; the handlers of the inputs each set one filter field, and \<^verbatim>\<open>clearFilters\<close>
  sets the four of them to the empty string.\<close>

record state =
  data :: "item list"
  loading :: bool
  searchTerm :: jsstring
  selectedUniversity :: jsstring
  selectedDepartment :: jsstring
  selectedProgram :: jsstring
  error :: "jsstring option"

definition clearFilters :: "state \<Rightarrow> state" where
  "clearFilters st =
     st\<lparr> searchTerm := [], selectedUniversity := [],
         selectedDepartment := [], selectedProgram := [] \<rparr>"

datatype action =
    SetSearchTerm jsstring
  | SetSelectedUniversity jsstring
  | SetSelectedDepartment jsstring
  | SetSelectedProgram jsstring
  | ClearFilters

fun handle :: "state \<Rightarrow> action \<Rightarrow> state" where
  "handle st (SetSearchTerm v) = st\<lparr> searchTerm := v \<rparr>"
| "handle st (SetSelectedUniversity v) = st\<lparr> selectedUniversity := v \<rparr>"
| "handle st (SetSelectedDepartment v) = st\<lparr> selectedDepartment := v \<rparr>"
| "handle st (SetSelectedProgram v) = st\<lparr> selectedProgram := v \<rparr>"
| "handle st ClearFilters = clearFilters st"

text \<open>What the component shows in a state: the filtered rows and the option lists,
  each computed from the state cells its \<^verbatim>\<open>useMemo\<close> depends on.\<close>

definition shown_rows :: "(jsstring \<Rightarrow> jsstring) \<Rightarrow> state \<Rightarrow> js_error + item list" where
  "shown_rows toLowerCase st =
     filteredData toLowerCase (data st) (searchTerm st) (selectedUniversity st)
       (selectedDepartment st) (selectedProgram st)"

definition shown_options ::
  "state \<Rightarrow> jsstring jsval list \<times> jsstring jsval list \<times> jsstring jsval list" where
  "shown_options st = (universities (data st), departments (data st), programs (data st))"

subsection \<open>The predicates of the specification\<close>

text \<open>The matching rule as the specification words it: a cell contains the search
  term when it holds a string whose lower-case form has the lower-case term as a
  contiguous part (a missing cell never does); a selection is met when it is empty or
  the cell holds exactly that string; a row matches when the search term is empty or
  one of the four text cells contains it, and the three selections are met. The
  lower-case form is that of the platform, the parameter \<open>lc\<close>.\<close>

definition spec_contains :: "(jsstring \<Rightarrow> jsstring) \<Rightarrow> jsstring jsval \<Rightarrow> jsstring \<Rightarrow> bool" where
  "spec_contains lc v t =
     (case v of
        Val s \<Rightarrow> sublist (lc t) (lc s)
      | Undefined \<Rightarrow> False
      | Null \<Rightarrow> False)"

definition spec_selected :: "jsstring jsval \<Rightarrow> jsstring \<Rightarrow> bool" where
  "spec_selected v sel = (sel = [] \<or> v = Val sel)"

definition spec_matches ::
  "(jsstring \<Rightarrow> jsstring) \<Rightarrow> jsstring \<Rightarrow> jsstring \<Rightarrow> jsstring \<Rightarrow> jsstring \<Rightarrow> item \<Rightarrow> bool" where
  "spec_matches lc t u d p r =
     ((t = [] \<or> spec_contains lc (NOMBRE_IES r) t \<or> spec_contains lc (NOMBRE_DEL_PROGRAMA r) t
         \<or> spec_contains lc (DEPARTAMENTO r) t \<or> spec_contains lc (MUNICIPIO r) t)
      \<and> spec_selected (NOMBRE_IES r) u
      \<and> spec_selected (DEPARTAMENTO r) d
      \<and> spec_selected (NOMBRE_DEL_PROGRAMA r) p)"

text \<open>What every lower-casing of strings does on ASCII: in a string of code units below
  128 the letters A to Z become a to z and the other units stay. This is all the worked
  example of the specification needs of \<^verbatim>\<open>toLowerCase\<close>.\<close>

definition ascii_lower :: "nat \<Rightarrow> nat" where
  "ascii_lower c = (if 65 \<le> c \<and> c \<le> 90 then c + 32 else c)"

definition lowers_ascii :: "(jsstring \<Rightarrow> jsstring) \<Rightarrow> bool" where
  "lowers_ascii lc = (\<forall>s. (\<forall>c \<in> set s. c < 128) \<longrightarrow> lc s = map ascii_lower s)"

text \<open>The option list of a facet as the specification words it: the distinct strings
  of the column over all rows, a missing cell left out, in ascending order.\<close>

definition spec_facetValues :: "(item \<Rightarrow> jsstring jsval) \<Rightarrow> item list \<Rightarrow> jsstring list" where
  "spec_facetValues field rows =
     sort (remdups (concat (map (\<lambda>r. case field r of Val s \<Rightarrow> [s] | Undefined \<Rightarrow> [] | Null \<Rightarrow> []) rows)))"

text \<open>A cell read as an optional value, where an absent cell and a \<^verbatim>\<open>null\<close> cell are the
  same missing value.\<close>

definition spec_optional :: "'a jsval \<Rightarrow> 'a option" where
  "spec_optional v = (case v of Val s \<Rightarrow> Some s | Undefined \<Rightarrow> None | Null \<Rightarrow> None)"

fun is_string :: "jsstring jsval \<Rightarrow> bool" where
  "is_string (Val s) = True"
| "is_string Undefined = False"
| "is_string Null = False"

text \<open>What an option list \<open>opts\<close> is, for a column \<open>field\<close> of the rows: it holds
  exactly the values of the column, \<^verbatim>\<open>undefined\<close> and \<^verbatim>\<open>null\<close> among them when a row
  has such a cell, each once; its string entries are the list of the specification;
  the entries other than \<^verbatim>\<open>undefined\<close> ascend by their string forms, and
  \<^verbatim>\<open>undefined\<close>, if present, is the last entry.\<close>

definition lists_values_of ::
  "jsstring jsval list \<Rightarrow> (item \<Rightarrow> jsstring jsval) \<Rightarrow> item list \<Rightarrow> bool" where
  "lists_values_of opts field rows =
     (set opts = field ` set rows
      \<and> distinct opts
      \<and> filter is_string opts = map Val (spec_facetValues field rows)
      \<and> sorted (map ToString (filter (\<lambda>v. v \<noteq> Undefined) opts))
      \<and> opts = filter (\<lambda>v. v \<noteq> Undefined) opts
                 @ (if Undefined \<in> field ` set rows then [Undefined] else []))"

text \<open>The tuition of a row with a missing one counted as \<open>0\<close>, and the sum of a list of
  numbers in the arithmetic of the program: added to \<open>0\<close> from left to right, each
  addition rounded to a double.\<close>

definition spec_tuition :: "item \<Rightarrow> rat" where
  "spec_tuition r = (case VALOR_MATRICULA r of Val v \<Rightarrow> v | Undefined \<Rightarrow> 0 | Null \<Rightarrow> 0)"

definition double_sum :: "rat list \<Rightarrow> jsnumber" where
  "double_sum xs = foldl (\<lambda>s x. add_js s (Finite x)) (Finite 0) xs"

subsection \<open>The example of the specification\<close>

text \<open>Three rows: A and B of institution X in regions R1 and R2 with tuitions 1000
  and 2000, C of institution Y in region R1 with no tuition; the other cells are
  absent.\<close>

definition row_A :: item where
  "row_A = \<lparr> NOMBRE_IES = Val (str ''X''), NOMBRE_DEL_PROGRAMA = Undefined,
             DEPARTAMENTO = Val (str ''R1''), MUNICIPIO = Undefined,
             VALOR_MATRICULA = Val 1000 \<rparr>"

definition row_B :: item where
  "row_B = \<lparr> NOMBRE_IES = Val (str ''X''), NOMBRE_DEL_PROGRAMA = Undefined,
             DEPARTAMENTO = Val (str ''R2''), MUNICIPIO = Undefined,
             VALOR_MATRICULA = Val 2000 \<rparr>"

definition row_C :: item where
  "row_C = \<lparr> NOMBRE_IES = Val (str ''Y''), NOMBRE_DEL_PROGRAMA = Undefined,
             DEPARTAMENTO = Val (str ''R1''), MUNICIPIO = Undefined,
             VALOR_MATRICULA = Undefined \<rparr>"

definition example_rows :: "item list" where
  "example_rows = [row_A, row_B, row_C]"

text \<open>A row with every cell absent, one with every cell \<^verbatim>\<open>null\<close>, and a row with
  nothing but a tuition.\<close>

definition row_absent :: item where
  "row_absent = \<lparr> NOMBRE_IES = Undefined, NOMBRE_DEL_PROGRAMA = Undefined,
                  DEPARTAMENTO = Undefined, MUNICIPIO = Undefined, VALOR_MATRICULA = Undefined \<rparr>"

definition row_null :: item where
  "row_null = \<lparr> NOMBRE_IES = Null, NOMBRE_DEL_PROGRAMA = Null,
                DEPARTAMENTO = Null, MUNICIPIO = Null, VALOR_MATRICULA = Null \<rparr>"

definition row_tuition :: "rat \<Rightarrow> item" where
  "row_tuition v = row_absent \<lparr> VALOR_MATRICULA := Val v \<rparr>"

section \<open>Auxiliary facts\<close>

subsection \<open>Filtering\<close>

lemma field_includes_spec: "field_includes lc v t = Inr (spec_contains lc v t)"
  by (cases v) (simp_all add: field_includes_def spec_contains_def includes_js_def)

lemma matchesSearch_spec:
  "matchesSearch lc t r =
     Inr (t = [] \<or> spec_contains lc (NOMBRE_IES r) t \<or> spec_contains lc (NOMBRE_DEL_PROGRAMA r) t
          \<or> spec_contains lc (DEPARTAMENTO r) t \<or> spec_contains lc (MUNICIPIO r) t)"
  by (simp add: matchesSearch_def field_includes_spec or_js_def)

lemma strict_equals_iff: "strict_equals v t \<longleftrightarrow> v = Val t"
  by (cases v) auto

lemma keeps_spec: "keeps lc t u d p r = Inr (spec_matches lc t u d p r)"
  by (simp add: keeps_def matchesSearch_spec spec_matches_def spec_selected_def
      matchesUniversity_def matchesDepartment_def matchesProgram_def strict_equals_iff)

lemma filter_js_total:
  "(\<And>x. x \<in> set xs \<Longrightarrow> p x = Inr (q x)) \<Longrightarrow> filter_js p xs = Inr (filter q xs)"
  by (induction xs) simp_all

lemma filteredData_filter:
  "filteredData lc rows t u d p = Inr (filter (spec_matches lc t u d p) rows)"
  unfolding filteredData_def by (rule filter_js_total) (rule keeps_spec)

text \<open>The guard of the optional chain is what keeps filtering from raising: the
  method call alone raises on a missing cell, and an exception in the callback ends
  \<^verbatim>\<open>filter\<close>.\<close>

lemma unguarded_call_raises:
  "filter_js (\<lambda>v. case call_toLowerCase lc v of Inl e \<Rightarrow> Inl e | Inr s \<Rightarrow> Inr (includes_js s t))
     [Val (str ''a''), Undefined] = Inl TypeError"
  by simp

lemma count_list_filter_le: "count_list (filter P xs) r \<le> count_list xs r"
  by (induction xs) auto

lemma subseq_filter_stronger:
  "(\<And>x. x \<in> set xs \<Longrightarrow> P x \<Longrightarrow> Q x) \<Longrightarrow> subseq (filter P xs) (filter Q xs)"
proof -
  assume imp: "\<And>x. x \<in> set xs \<Longrightarrow> P x \<Longrightarrow> Q x"
  have "filter P xs = filter P (filter Q xs)"
    using imp by (induction xs) auto
  then show ?thesis
    by (metis subseq_filter_left)
qed

lemma spec_matches_empty: "spec_matches lc [] [] [] [] r"
  by (simp add: spec_matches_def spec_selected_def)

lemma data_handle: "data (handle st a) = data st"
  by (cases a) (simp_all add: clearFilters_def)

lemma data_foldl_handle: "data (foldl handle st acts) = data st"
  by (induction acts arbitrary: st) (simp_all add: data_handle)

text \<open>The strings of the example and their lower-case forms.\<close>

lemma str_example:
  "str ''X'' = [88]" "str ''Y'' = [89]" "str ''R1'' = [82, 49]" "str ''R2'' = [82, 50]"
  "str ''r1'' = [114, 49]"
  by (simp_all add: str_def)

lemma lowers_ascii_example:
  assumes "lowers_ascii lc"
  shows "lc [88] = [120]" "lc [89] = [121]" "lc [82, 49] = [114, 49]"
    "lc [82, 50] = [114, 50]" "lc [114, 49] = [114, 49]"
  using assms by (simp_all add: lowers_ascii_def ascii_lower_def)

lemma lowers_ascii_map: "lowers_ascii (map ascii_lower)"
  by (simp add: lowers_ascii_def)

lemma example_search_r1:
  assumes "lowers_ascii lc"
  shows "filteredData lc example_rows (str ''r1'') [] [] [] = Inr [row_A, row_C]"
  by (simp add: filteredData_filter example_rows_def spec_matches_def spec_contains_def
      spec_selected_def row_A_def row_B_def row_C_def str_example
      lowers_ascii_example [OF assms] sublist_code prefix_code)

lemma example_select_X:
  "filteredData lc example_rows [] (str ''X'') [] [] = Inr [row_A, row_B]"
  by (simp add: filteredData_filter example_rows_def spec_matches_def spec_contains_def
      spec_selected_def row_A_def row_B_def row_C_def str_example)

text \<open>A row whose municipality is BOGOTA written with an acute accent on the last
  letter (the code units 66, 79, 71, 79, 84, 193) is kept by the search term in small
  letters (98, 111, 103, 111, 116, 225), for every lower-casing that maps the capitals
  to the small letters and leaves these.\<close>

lemma search_accented:
  assumes "lc [66, 79, 71, 79, 84, 193] = [98, 111, 103, 111, 116, 225]"
    and "lc [98, 111, 103, 111, 116, 225] = [98, 111, 103, 111, 116, 225]"
  shows "filteredData lc [row_absent \<lparr> MUNICIPIO := Val [66, 79, 71, 79, 84, 193] \<rparr>]
           [98, 111, 103, 111, 116, 225] [] [] []
         = Inr [row_absent \<lparr> MUNICIPIO := Val [66, 79, 71, 79, 84, 193] \<rparr>]"
  by (simp add: filteredData_filter spec_matches_def spec_contains_def spec_selected_def
      row_absent_def assms)

subsection \<open>The option lists\<close>

lemma foldl_Set_add_set: "set (foldl Set_add acc xs) = set acc \<union> set xs"
  by (induction xs arbitrary: acc) (auto simp: Set_add_def)

lemma foldl_Set_add_distinct: "distinct acc \<Longrightarrow> distinct (foldl Set_add acc xs)"
  by (induction xs arbitrary: acc) (auto simp: Set_add_def)

lemma set_new_Set: "set (new_Set xs) = set xs"
  by (simp add: new_Set_def foldl_Set_add_set)

lemma distinct_new_Set: "distinct (new_Set xs)"
  by (simp add: new_Set_def foldl_Set_add_distinct)

lemma length_new_Set: "length (new_Set xs) = card (set xs)"
  by (metis distinct_card distinct_new_Set set_new_Set)

lemma set_sort_js: "set (sort_js xs) = set xs"
  by (auto simp: sort_js_def)

lemma distinct_sort_js: "distinct xs \<Longrightarrow> distinct (sort_js xs)"
  by (auto simp: sort_js_def)

lemma filter_defined_sort_js:
  "filter (\<lambda>v. v \<noteq> Undefined) (sort_js xs) = sort_key ToString (filter (\<lambda>v. v \<noteq> Undefined) xs)"
proof -
  have "filter (\<lambda>v. v \<noteq> Undefined) (sort_key ToString (filter (\<lambda>v. v \<noteq> Undefined) xs))
        = sort_key ToString (filter (\<lambda>v. v \<noteq> Undefined) xs)"
    by (rule filter_True) simp
  then show ?thesis
    by (simp add: sort_js_def)
qed

lemma sorted_defined_sort_js:
  "sorted (map ToString (filter (\<lambda>v. v \<noteq> Undefined) (sort_js xs)))"
  by (simp add: filter_defined_sort_js)

lemma sort_js_undefined_last:
  "sort_js xs = filter (\<lambda>v. v \<noteq> Undefined) (sort_js xs)
                @ replicate (count_list xs Undefined) Undefined"
proof -
  have "filter (\<lambda>x. x = Undefined) xs = replicate (count_list xs Undefined) Undefined"
    by (induction xs) auto
  then show ?thesis
    by (simp add: filter_defined_sort_js) (simp add: sort_js_def)
qed

lemma count_list_distinct_le: "distinct xs \<Longrightarrow> count_list xs x \<le> 1"
  by (induction xs) auto

lemma set_spec_facetValues: "set (spec_facetValues field rows) = {s. Val s \<in> field ` set rows}"
  by (auto simp: spec_facetValues_def image_iff split: jsval.splits) 

lemma sorted_spec_facetValues: "sorted (spec_facetValues field rows)"
  by (simp add: spec_facetValues_def)

lemma distinct_spec_facetValues: "distinct (spec_facetValues field rows)"
  by (simp add: spec_facetValues_def)

lemma map_Val_ToString_strings: "map Val (map ToString (filter is_string xs)) = filter is_string xs"
proof (induction xs)
  case Nil
  then show ?case by simp
next
  case (Cons x xs)
  then show ?case by (cases x) simp_all
qed

lemma is_string_defined: "filter is_string xs = filter is_string (filter (\<lambda>v. v \<noteq> Undefined) xs)"
  by (induction xs) auto

lemma inj_on_ToString_strings: "inj_on ToString {v. is_string v}"
proof (rule inj_onI)
  fix a b
  assume "a \<in> {v. is_string v}" "b \<in> {v. is_string v}" "ToString a = ToString b"
  then show "a = b"
    by (cases a; cases b) simp_all
qed

lemma strings_of_sorted_options:
  assumes "distinct opts" and "sorted (map ToString (filter (\<lambda>v. v \<noteq> Undefined) opts))"
    and "set opts = field ` set rows"
  shows "filter is_string opts = map Val (spec_facetValues field rows)"
proof -
  let ?strs = "map ToString (filter is_string opts)"
  have "sorted (map ToString (filter is_string (filter (\<lambda>v. v \<noteq> Undefined) opts)))"
    using assms(2) by (rule sorted_filter)
  then have s: "sorted ?strs"
    using is_string_defined [of opts] by simp
  have d: "distinct ?strs"
  proof -
    have "inj_on ToString (set (filter is_string opts))"
      by (rule inj_on_subset [OF inj_on_ToString_strings]) auto
    with assms(1) show ?thesis
      by (simp add: distinct_map)
  qed
  have "set ?strs = {s. Val s \<in> set opts}"
  proof (rule set_eqI)
    fix s
    show "s \<in> set ?strs \<longleftrightarrow> s \<in> {s. Val s \<in> set opts}"
    proof
      assume "s \<in> set ?strs"
      then obtain v where v: "v \<in> set opts" "is_string v" "s = ToString v" by auto
      have "v = Val s" using v(2,3) by (cases v) simp_all
      with v(1) show "s \<in> {s. Val s \<in> set opts}" by simp
    next
      assume "s \<in> {s. Val s \<in> set opts}"
      then have "Val s \<in> set (filter is_string opts)" by simp
      then have "ToString (Val s) \<in> set ?strs" by (simp only: set_map) (rule imageI)
      then show "s \<in> set ?strs" by simp
    qed
  qed
  then have "set ?strs = set (spec_facetValues field rows)"
    by (simp add: set_spec_facetValues assms(3))
  with s d have "?strs = spec_facetValues field rows"
    by (metis sorted_distinct_set_unique sorted_spec_facetValues distinct_spec_facetValues)
  then show ?thesis
    using map_Val_ToString_strings [of opts] by simp
qed

lemma sort_js_new_Set_lists:
  "lists_values_of (sort_js (new_Set (map field rows))) field rows"
proof -
  let ?opts = "sort_js (new_Set (map field rows))"
  have st: "set ?opts = field ` set rows"
    by (simp add: set_sort_js set_new_Set)
  have di: "distinct ?opts"
    by (simp add: distinct_sort_js distinct_new_Set)
  have so: "sorted (map ToString (filter (\<lambda>v. v \<noteq> Undefined) ?opts))"
    by (rule sorted_defined_sort_js)
  have "count_list (new_Set (map field rows)) Undefined
        = (if Undefined \<in> field ` set rows then 1 else 0)"
    using count_list_distinct_le [OF distinct_new_Set, of "map field rows" Undefined]
      set_new_Set [of "map field rows"]
    by (auto simp: count_list_0_iff le_Suc_eq)
  then have la: "?opts = filter (\<lambda>v. v \<noteq> Undefined) ?opts
                 @ (if Undefined \<in> field ` set rows then [Undefined] else [])"
    using sort_js_undefined_last [of "new_Set (map field rows)"]
    by (cases "Undefined \<in> field ` set rows") simp_all
  from st di so la strings_of_sorted_options [OF di so st] show ?thesis
    unfolding lists_values_of_def by blast
qed

lemma shown_options_handle: "shown_options (foldl handle st acts) = shown_options st"
  by (simp add: shown_options_def data_foldl_handle)

lemma card_spec_optional:
  "Undefined \<notin> A \<or> Null \<notin> A \<Longrightarrow> card (spec_optional ` A) = card A"
proof (rule card_image, rule inj_onI)
  fix a b :: "'a jsval"
  assume "Undefined \<notin> A \<or> Null \<notin> A" "a \<in> A" "b \<in> A" "spec_optional a = spec_optional b"
  then show "a = b"
    by (cases a; cases b) (auto simp: spec_optional_def)
qed

subsection \<open>Rounding to a double\<close>

lemma bit_length_bounds:
  "0 < n \<Longrightarrow> 2 ^ (bit_length n - 1) \<le> n \<and> n < 2 ^ bit_length n"
proof (induction n rule: bit_length.induct)
  case (1 n)
  show ?case
  proof (cases "n div 2 = 0")
    case True
    with "1.prems" have "n = 1" by (simp add: div_eq_0_iff) 
    then show ?thesis by (simp add: bit_length.simps)
  next
    case False
    then have pos: "0 < n div 2" by simp
    from "1.IH" [OF _ pos] "1.prems"
    have ih: "2 ^ (bit_length (n div 2) - 1) \<le> n div 2" "n div 2 < 2 ^ bit_length (n div 2)"
      by simp_all
    have bl: "bit_length n = Suc (bit_length (n div 2))"
      using "1.prems" by (subst bit_length.simps) simp
    have blpos: "0 < bit_length (n div 2)"
      using pos by (subst bit_length.simps) simp
    have "2 ^ (bit_length n - 1) = 2 * 2 ^ (bit_length (n div 2) - 1)"
      using bl blpos by (cases "bit_length (n div 2)") simp_all
    also have "\<dots> \<le> 2 * (n div 2)" using ih(1) by simp
    also have "\<dots> \<le> n" by simp
    finally have lo: "2 ^ (bit_length n - 1) \<le> n" .
    have "n < 2 * (n div 2) + 2" by arith
    also have "\<dots> \<le> 2 * 2 ^ bit_length (n div 2)" using ih(2) by simp
    finally have hi: "n < 2 ^ bit_length n" using bl by simp
    from lo hi show ?thesis ..
  qed
qed


lemma bit_length_pos: "0 < n \<Longrightarrow> 0 < bit_length n"
  by (subst bit_length.simps) simp



lemma two_power_le_of_nat:
  assumes "2 ^ k \<le> (n::nat)"
  shows "(2::rat) ^ k \<le> rat_of_nat n"
proof -
  from assms have "rat_of_nat (2 ^ k) \<le> rat_of_nat n" by (simp only: of_nat_le_iff)
  then show ?thesis by simp
qed

lemma of_nat_succ_le_two_power:
  assumes "(n::nat) < 2 ^ k"
  shows "rat_of_nat n + 1 \<le> 2 ^ k"
proof -
  from assms have "Suc n \<le> 2 ^ k" by simp
  then have "rat_of_nat (Suc n) \<le> rat_of_nat (2 ^ k)" by (simp only: of_nat_le_iff)
  then show ?thesis by simp
qed

lemma powi_minus_nat: "(2::rat) powi (- int j) = 1 / 2 ^ j"
  by (simp add: power_int_minus power_int_of_nat divide_inverse)

lemma floor_log2_bounds:
  assumes "0 < a"
  shows "2 powi floor_log2 a \<le> a \<and> a < 2 powi (floor_log2 a + 1)"
proof (cases "1 \<le> a")
  case True
  define n where "n = nat \<lfloor>a\<rfloor>"
  define k where "k = bit_length n"
  have npos: "0 < n" using True by (simp add: n_def)
  have kpos: "0 < k" using npos by (simp add: k_def bit_length_pos)
  have fl: "floor_log2 a = int (k - 1)"
    using True kpos by (simp add: floor_log2_def k_def n_def)
  have bnd: "2 ^ (k - 1) \<le> n" "n < 2 ^ k"
    using bit_length_bounds [OF npos] by (simp_all add: k_def)
  have na: "rat_of_nat n \<le> a" "a < rat_of_nat n + 1"
    using True by (simp_all add: n_def of_nat_nat floor_less_cancel)
  have "(2::rat) ^ (k - 1) \<le> a"
    by (rule order_trans [OF two_power_le_of_nat [OF bnd(1)] na(1)])
  then have lo: "(2::rat) powi floor_log2 a \<le> a"
    by (simp only: fl power_int_of_nat)
  have ak: "a < 2 ^ k"
    by (rule less_le_trans [OF na(2) of_nat_succ_le_two_power [OF bnd(2)]])
  have "floor_log2 a + 1 = int k" using fl kpos by simp
  with ak have hi: "a < 2 powi (floor_log2 a + 1)"
    by (simp only: power_int_of_nat)
  from lo hi show ?thesis ..
next
  case False
  define b where "b = 1 / a"
  define n where "n = nat (\<lceil>b\<rceil> - 1)"
  define j where "j = bit_length n"
  have b1: "1 < b" using False assms by (simp add: b_def)
  then have c2: "2 \<le> \<lceil>b\<rceil>" by (simp add: le_ceiling_iff)
  then have npos: "0 < n" by (simp add: n_def)
  have jpos: "0 < j" using npos by (simp add: j_def bit_length_pos)
  have fl: "floor_log2 a = - int j"
    using False by (simp add: floor_log2_def j_def n_def b_def)
  have bnd: "2 ^ (j - 1) \<le> n" "n < 2 ^ j"
    using bit_length_bounds [OF npos] by (simp_all add: j_def)
  have nb: "rat_of_nat n < b" "b \<le> rat_of_nat n + 1"
    using c2 by (simp_all add: n_def of_nat_nat ceiling_correct)
  have "b \<le> 2 ^ j"
    by (rule order_trans [OF nb(2) of_nat_succ_le_two_power [OF bnd(2)]])
  then have "1 \<le> 2 ^ j * a" using assms by (simp add: b_def field_simps)
  then have "1 / 2 ^ j \<le> a" by (simp add: field_simps)
  then have lo: "2 powi floor_log2 a \<le> a"
    by (simp only: fl powi_minus_nat)
  have "2 ^ (j - 1) < b"
    by (rule le_less_trans [OF two_power_le_of_nat [OF bnd(1)] nb(1)])
  then have "2 ^ (j - 1) * a < 1" using assms by (simp add: b_def field_simps)
  then have aj: "a < 1 / 2 ^ (j - 1)" by (simp add: field_simps)
  have "floor_log2 a + 1 = - int (j - 1)" using fl jpos by simp
  with aj have hi: "a < 2 powi (floor_log2 a + 1)"
    by (simp only: powi_minus_nat)
  from lo hi show ?thesis ..
qed

lemma powi_two_mono: "i \<le> j \<Longrightarrow> (2::rat) powi i \<le> 2 powi j"
  by (rule power_int_increasing) simp_all

lemma floor_log2_unique:
  assumes "0 < a" "2 powi e \<le> a" "a < 2 powi (e + 1)"
  shows "floor_log2 a = e"
proof -
  from floor_log2_bounds [OF assms(1)]
  have b: "2 powi floor_log2 a \<le> a" "a < 2 powi (floor_log2 a + 1)" by simp_all
  have "\<not> floor_log2 a < e"
  proof
    assume "floor_log2 a < e"
    then have "floor_log2 a + 1 \<le> e" by simp
    then have "(2::rat) powi (floor_log2 a + 1) \<le> 2 powi e" by (rule powi_two_mono)
    with b(2) assms(2) show False by simp
  qed
  moreover have "\<not> e < floor_log2 a"
  proof
    assume "e < floor_log2 a"
    then have "e + 1 \<le> floor_log2 a" by simp
    then have "(2::rat) powi (e + 1) \<le> 2 powi floor_log2 a" by (rule powi_two_mono)
    with b(1) assms(3) show False by simp
  qed
  ultimately show ?thesis by simp
qed


lemma round_half_even_of_int: "round_half_even (of_int n) = n"
  by (simp add: round_half_even_def)

lemma round_half_even_near:
  assumes "\<bar>q - of_int n\<bar> < 1 / 2"
  shows "round_half_even q = n"
proof (cases "of_int n \<le> q")
  case True
  with assms have "\<lfloor>q\<rfloor> = n" by (simp add: floor_unique)
  with assms True show ?thesis by (simp add: round_half_even_def)
next
  case False
  with assms have f: "\<lfloor>q\<rfloor> = n - 1" by (intro floor_unique) simp_all
  with assms False show ?thesis by (simp add: round_half_even_def)
qed

lemma round_half_even_tie_down:
  assumes "q = of_int n + 1 / 2" "even n"
  shows "round_half_even q = n"
proof -
  from assms(1) have "\<lfloor>q\<rfloor> = n" by (intro floor_unique) simp_all
  with assms show ?thesis by (simp add: round_half_even_def)
qed

lemma round_half_even_tie_up:
  assumes "q = of_int n - 1 / 2" "even n"
  shows "round_half_even q = n"
proof -
  from assms(1) have "\<lfloor>q\<rfloor> = n - 1" by (intro floor_unique) simp_all
  with assms show ?thesis by (simp add: round_half_even_def)
qed

lemma round_double_pos:
  assumes "0 < x" "2 powi e0 \<le> x" "x < 2 powi (e0 + 1)" "e = max e0 (- 1022)"
    and "round_half_even (x / 2 powi (e - 52)) = n" "m = of_int n * 2 powi (e - 52)"
  shows "round_double x =
     (if 2 powi 1024 \<le> m then PosInfinity else if m = 0 then Finite 0 else Finite m)"
proof -
  have "floor_log2 x = e0" using assms(1-3) by (rule floor_log2_unique)
  with assms show ?thesis by (simp add: round_double_def Let_def)
qed

lemma round_double_neg:
  assumes "0 < x" "2 powi e0 \<le> x" "x < 2 powi (e0 + 1)" "e = max e0 (- 1022)"
    and "round_half_even (x / 2 powi (e - 52)) = n" "m = of_int n * 2 powi (e - 52)"
  shows "round_double (- x) =
     (if 2 powi 1024 \<le> m then NegInfinity else if m = 0 then NegZero else Finite (- m))"
proof -
  have "floor_log2 x = e0" using assms(1-3) by (rule floor_log2_unique)
  with assms show ?thesis by (simp add: round_double_def Let_def)
qed

lemma round_double_exact:
  assumes "x \<noteq> 0" "\<bar>x\<bar> < 2 powi 1024"
    and "\<bar>x\<bar> / 2 powi (max (floor_log2 \<bar>x\<bar>) (- 1022) - 52) = of_int n"
  shows "round_double x = Finite x"
proof -
  have u: "(2::rat) powi (max (floor_log2 \<bar>x\<bar>) (- 1022) - 52) \<noteq> 0" by simp
  have "of_int n * 2 powi (max (floor_log2 \<bar>x\<bar>) (- 1022) - 52) = \<bar>x\<bar>"
    using u by (simp add: assms(3) [symmetric])
  then have m: "of_int (round_half_even (\<bar>x\<bar> / 2 powi (max (floor_log2 \<bar>x\<bar>) (- 1022) - 52)))
      * 2 powi (max (floor_log2 \<bar>x\<bar>) (- 1022) - 52) = \<bar>x\<bar>"
    by (simp only: assms(3) round_half_even_of_int)
  have "round_double x
      = (if 2 powi 1024 \<le> \<bar>x\<bar> then (if 0 < x then PosInfinity else NegInfinity)
         else if \<bar>x\<bar> = 0 then (if 0 < x then Finite 0 else NegZero)
         else Finite (if 0 < x then \<bar>x\<bar> else - \<bar>x\<bar>))"
    by (simp only: round_double_def Let_def m assms(1) if_False)
  also have "\<dots> = Finite x"
    using assms(1,2) by simp
  finally show ?thesis .
qed

lemma round_double_of_int:
  assumes "k \<noteq> 0" "\<bar>k\<bar> < 2 ^ 53"
  shows "round_double (of_int k) = Finite (of_int k)"
proof -
  define a :: rat where "a = of_int \<bar>k\<bar>"
  define e where "e = floor_log2 a"
  have apos: "0 < a" and a1: "1 \<le> a" using assms(1) by (simp_all add: a_def)
  have a53: "a < 2 ^ 53"
  proof -
    have "rat_of_int \<bar>k\<bar> < rat_of_int (2 ^ 53)" using assms(2) by (simp only: of_int_less_iff)
    then show ?thesis by (simp add: a_def)
  qed
  from floor_log2_bounds [OF apos]
  have b: "2 powi e \<le> a" "a < 2 powi (e + 1)" by (simp_all add: e_def)
  have e0: "0 \<le> e"
  proof (rule ccontr)
    assume "\<not> 0 \<le> e"
    then have "e + 1 \<le> 0" by simp
    then have "(2::rat) powi (e + 1) \<le> 2 powi 0" by (rule powi_two_mono)
    with b(2) a1 show False by simp
  qed
  have e52: "e \<le> 52"
  proof (rule ccontr)
    assume "\<not> e \<le> 52"
    then have "53 \<le> e" by simp
    then have "(2::rat) powi 53 \<le> 2 powi e" by (rule powi_two_mono)
    with b(1) a53 show False by simp
  qed
  define d where "d = nat (52 - e)"
  have ed: "e - 52 = - int d" using e52 by (simp add: d_def)
  have "a / 2 powi (max e (- 1022) - 52) = a * 2 ^ d"
    using e0 by (simp add: max_def ed powi_minus_nat)
  also have "\<dots> = of_int (\<bar>k\<bar> * 2 ^ d)" by (simp add: a_def)
  finally have q: "\<bar>rat_of_int k\<bar> / 2 powi (max (floor_log2 \<bar>rat_of_int k\<bar>) (- 1022) - 52)
      = of_int (\<bar>k\<bar> * 2 ^ d)"
    by (simp add: a_def e_def)
  have "a < 2 powi 1024"
  proof -
    have "(2::rat) powi 53 \<le> 2 powi 1024" by (rule powi_two_mono) simp
    with a53 show ?thesis by simp
  qed
  then have lt: "\<bar>rat_of_int k\<bar> < 2 powi 1024" by (simp add: a_def)
  show ?thesis
    by (rule round_double_exact [OF _ lt q]) (use assms(1) in simp)
qed

subsection \<open>The statistics\<close>

lemma totalPrograms_stats: "totalPrograms (stats view) = length view"
  by (simp add: stats_def)

lemma uniqueUniversities_stats:
  "uniqueUniversities (stats view) = length (new_Set (map NOMBRE_IES view))"
  by (simp add: stats_def)

lemma uniqueDepartments_stats:
  "uniqueDepartments (stats view) = length (new_Set (map DEPARTAMENTO view))"
  by (simp add: stats_def)

lemma avgMatricula_stats:
  "avgMatricula (stats view) =
     (if length view > 0
      then divide_js
             (foldl (\<lambda>sum item. add_js sum (Finite (or_zero (VALOR_MATRICULA item))))
                (Finite 0) view)
             (length view)
      else Finite 0)"
  by (simp add: stats_def)

lemma or_zero_spec_tuition: "or_zero (VALOR_MATRICULA r) = spec_tuition r"
  by (cases "VALOR_MATRICULA r") (simp_all add: spec_tuition_def)

lemma foldl_or_zero:
  "foldl (\<lambda>sum item. add_js sum (Finite (or_zero (VALOR_MATRICULA item)))) acc view
     = foldl (\<lambda>s x. add_js s (Finite x)) acc (map spec_tuition view)"
  by (induction view arbitrary: acc) (simp_all add: or_zero_spec_tuition)

text \<open>Whole numbers below \<^verbatim>\<open>2^53\<close> in magnitude are doubles, and their sums are exact
  as long as they stay below it: on tuitions that are whole numbers the average is the
  exact mean, rounded once.\<close>

lemma round_double_int:
  assumes "\<bar>k\<bar> < 2 ^ 53"
  shows "round_double (of_int k) = Finite (of_int k)"
proof (cases "k = 0")
  case True
  then show ?thesis by (simp add: round_double_def)
next
  case False
  then show ?thesis using assms by (rule round_double_of_int)
qed

lemma foldl_add_ints:
  assumes "\<bar>a\<bar> + sum_list (map abs ks) < 2 ^ 53"
  shows "foldl (\<lambda>s x. add_js s (Finite x)) (Finite (of_int a)) (map of_int ks)
           = Finite (of_int (a + sum_list ks))"
  using assms
proof (induction ks arbitrary: a)
  case Nil
  then show ?case by simp
next
  case (Cons k ks)
  have "\<bar>a + k\<bar> \<le> \<bar>a\<bar> + \<bar>k\<bar>" by simp
  with Cons.prems have b: "\<bar>a + k\<bar> + sum_list (map abs ks) < 2 ^ 53" by simp
  have "0 \<le> sum_list (map abs ks)" by (rule sum_list_nonneg) auto
  with b have "\<bar>a + k\<bar> < 2 ^ 53" by simp
  then have "round_double (of_int (a + k)) = Finite (of_int (a + k))"
    by (rule round_double_int)
  then have "add_js (Finite (of_int a)) (Finite (of_int k)) = Finite (of_int (a + k))"
    by simp
  with Cons.IH [OF b] show ?case by (simp add: add.assoc)
qed

lemma double_sum_ints:
  assumes "sum_list (map abs ks) < 2 ^ 53"
  shows "double_sum (map of_int ks) = Finite (of_int (sum_list ks))"
  using foldl_add_ints [of 0 ks] assms by (simp add: double_sum_def)

lemma stats_mean_ints:
  assumes "view \<noteq> []" "map spec_tuition view = map of_int ks"
    and "sum_list (map abs ks) < 2 ^ 53"
  shows "avgMatricula (stats view)
           = round_double (of_int (sum_list ks) / of_nat (length view))"
  using assms(1)
  by (simp add: avgMatricula_stats foldl_or_zero assms(2)
      double_sum_ints [OF assms(3), unfolded double_sum_def])

text \<open>Rounding at the numbers of the examples.\<close>

lemma round_double_small:
  "round_double 1 = Finite 1" "round_double 500 = Finite 500"
  "round_double 1000 = Finite 1000" "round_double 1500 = Finite 1500"
  "round_double 3000 = Finite 3000" "round_double (2 ^ 52) = Finite (2 ^ 52)"
  using round_double_of_int [of 1] round_double_of_int [of 500] round_double_of_int [of 1000]
    round_double_of_int [of 1500] round_double_of_int [of 3000]
    round_double_of_int [of "2 ^ 52"]
  by simp_all

lemma round_double_third: "round_double (1 / 3) = Finite (6004799503160661 / 2 ^ 54)"
proof -
  have "round_half_even ((1 / 3) / 2 powi (- 54)) = 6004799503160661"
    by (rule round_half_even_near) (simp add: power_int_minus)
  then show ?thesis
    using round_double_pos [of "1 / 3" "- 2" "- 2" 6004799503160661 "6004799503160661 / 2 ^ 54"]
    by (simp add: power_int_minus)
qed

lemma round_double_two_53: "round_double (2 ^ 53) = Finite (2 ^ 53)"
proof -
  have "round_half_even (2 ^ 53 / 2 powi 1) = 2 ^ 52"
    using round_half_even_of_int [of "2 ^ 52"] by simp
  then show ?thesis
    using round_double_pos [of "2 ^ 53" 53 53 "2 ^ 52" "2 ^ 53"] by simp
qed

lemma round_double_tie: "round_double (2 ^ 53 + 1) = Finite (2 ^ 53)"
proof -
  have "round_half_even ((2 ^ 53 + 1) / 2 powi 1) = 2 ^ 52"
    by (rule round_half_even_tie_down) simp_all
  then show ?thesis
    using round_double_pos [of "2 ^ 53 + 1" 53 53 "2 ^ 52" "2 ^ 53"] by simp
qed

lemma MAX_VALUE_pos: "0 < MAX_VALUE"
  by (simp add: MAX_VALUE_def)

lemma round_double_max: "round_double MAX_VALUE = Finite MAX_VALUE"
proof -
  have "round_half_even (MAX_VALUE / 2 powi 971) = 2 ^ 53 - 1"
    using round_half_even_of_int [of "2 ^ 53 - 1"] by (simp add: MAX_VALUE_def)
  then show ?thesis
    using round_double_pos [of MAX_VALUE 1023 1023 "2 ^ 53 - 1" MAX_VALUE]
    by (simp add: MAX_VALUE_def)
qed

lemma round_double_overflow: "round_double (MAX_VALUE + MAX_VALUE) = PosInfinity"
proof -
  have "round_half_even ((MAX_VALUE + MAX_VALUE) / 2 powi 972) = 2 ^ 53 - 1"
    using round_half_even_of_int [of "2 ^ 53 - 1"] by (simp add: MAX_VALUE_def)
  then show ?thesis
    using round_double_pos [of "MAX_VALUE + MAX_VALUE" 1024 1024 "2 ^ 53 - 1"
        "MAX_VALUE + MAX_VALUE"]
    by (simp add: MAX_VALUE_def)
qed

text \<open>The average is a double: the third of \<open>1\<close> is rounded, the sum of \<^verbatim>\<open>2^53\<close> and
  \<open>1\<close> loses the \<open>1\<close>, and the sum of two greatest doubles is \<^verbatim>\<open>Infinity\<close>.\<close>

lemma stats_rounds:
  "avgMatricula (stats [row_tuition 1, row_absent, row_null])
     = Finite (6004799503160661 / 2 ^ 54)"
  "avgMatricula (stats [row_tuition (2 ^ 53), row_tuition 1]) = Finite (2 ^ 52)"
  "avgMatricula (stats [row_tuition MAX_VALUE, row_tuition MAX_VALUE]) = PosInfinity"
proof -
  show "avgMatricula (stats [row_tuition 1, row_absent, row_null])
     = Finite (6004799503160661 / 2 ^ 54)"
    by (simp add: avgMatricula_stats row_tuition_def row_absent_def row_null_def
        round_double_small round_double_third)
  have "round_double (2 ^ 53 / 2) = Finite (2 ^ 52)"
    using round_double_small(6) by simp
  then show "avgMatricula (stats [row_tuition (2 ^ 53), row_tuition 1]) = Finite (2 ^ 52)"
    by (simp add: avgMatricula_stats row_tuition_def row_absent_def
        round_double_two_53 [simplified] round_double_tie [simplified])
  have "MAX_VALUE \<noteq> 0" using MAX_VALUE_pos by simp
  then show "avgMatricula (stats [row_tuition MAX_VALUE, row_tuition MAX_VALUE]) = PosInfinity"
    by (simp add: avgMatricula_stats row_tuition_def row_absent_def
        round_double_max round_double_overflow [simplified])
qed

subsection \<open>Formatting an amount\<close>

lemma formatCurrency_not_available:
  "formatCurrency intl_format Undefined = str ''No disponible''
   \<and> formatCurrency intl_format Null = str ''No disponible''
   \<and> formatCurrency intl_format (Val (Finite 0)) = str ''No disponible''
   \<and> formatCurrency intl_format (Val NegZero) = str ''No disponible''
   \<and> formatCurrency intl_format (Val NaN) = str ''No disponible''"
  by simp

lemma formatCurrency_formats:
  "n \<noteq> Finite 0 \<Longrightarrow> n \<noteq> NegZero \<Longrightarrow> n \<noteq> NaN \<Longrightarrow>
     formatCurrency intl_format (Val n) = intl_format n"
  by simp

section \<open>The properties of the specification\<close>

text \<open>C1. The filtered rows are exactly the rows of the data, in their order, that meet
  the predicate of the specification: the search term is empty or one of the four text
  cells holds a string whose lower-case form contains the lower-case form of the term (a
  missing cell never matches), and each of the three selections is empty or equals the
  cell. This holds whatever the lower-casing of the platform is. On the three rows of
  the example the search term \<^verbatim>\<open>r1\<close> keeps A and C and drops B, for every lower-casing
  that treats ASCII strings as \<^verbatim>\<open>toLowerCase\<close> does.\<close>
theorem filteredData_iff_spec:
  "filteredData lc rows t u d p = Inr (filter (spec_matches lc t u d p) rows)
   \<and> (lowers_ascii lc \<longrightarrow>
        filteredData lc example_rows (str ''r1'') [] [] [] = Inr [row_A, row_C])"
proof (intro conjI impI)
  show "filteredData lc rows t u d p = Inr (filter (spec_matches lc t u d p) rows)"
    by (rule filteredData_filter)
  assume "lowers_ascii lc"
  then show "filteredData lc example_rows (str ''r1'') [] [] [] = Inr [row_A, row_C]"
    by (rule example_search_r1)
qed

theorem filteredData_iff_spec_witness:
  "lowers_ascii (map ascii_lower)
   \<and> filteredData (map ascii_lower) example_rows (str ''r1'') [] [] [] = Inr [row_A, row_C]"
proof
  show "lowers_ascii (map ascii_lower)"
    by (rule lowers_ascii_map)
  then show "filteredData (map ascii_lower) example_rows (str ''r1'') [] [] []
      = Inr [row_A, row_C]"
    by (rule filteredData_iff_spec [of "map ascii_lower", THEN conjunct2, THEN mp])
qed

text \<open>C3. Filtering returns a subsequence of the data: the rows kept stand in the order
  they have in the data, and no row occurs more often in the result than in the data.\<close>
theorem filteredData_subseq:
  "\<exists>out. filteredData lc rows t u d p = Inr out \<and> subseq out rows
         \<and> (\<forall>r. count_list out r \<le> count_list rows r)"
  by (simp add: filteredData_filter count_list_filter_le)

text \<open>C5. With the four filter fields empty, filtering returns the data unchanged; and
  after any sequence of handler calls, \<^verbatim>\<open>clearFilters\<close> leads to a state that shows all
  the rows of the data.\<close>
theorem empty_filter_identity:
  "filteredData lc rows [] [] [] [] = Inr rows
   \<and> shown_rows lc (clearFilters (foldl handle st acts)) = Inr (data st)"
proof
  show "filteredData lc rows [] [] [] [] = Inr rows"
    by (simp add: filteredData_filter spec_matches_empty)
  have "shown_rows lc (clearFilters (foldl handle st acts))
        = filteredData lc (data (foldl handle st acts)) [] [] [] []"
    by (simp add: shown_rows_def clearFilters_def)
  then show "shown_rows lc (clearFilters (foldl handle st acts)) = Inr (data st)"
    by (simp add: filteredData_filter spec_matches_empty data_foldl_handle)
qed

text \<open>C10. Changing one of the three selections from empty to any value, the other
  filter fields unchanged, gives a subsequence of the rows shown before.\<close>
theorem facet_selection_monotone:
  "(\<exists>wide narrow. filteredData lc rows t [] d p = Inr wide
        \<and> filteredData lc rows t u d p = Inr narrow \<and> subseq narrow wide)
   \<and> (\<exists>wide narrow. filteredData lc rows t u [] p = Inr wide
        \<and> filteredData lc rows t u d p = Inr narrow \<and> subseq narrow wide)
   \<and> (\<exists>wide narrow. filteredData lc rows t u d [] = Inr wide
        \<and> filteredData lc rows t u d p = Inr narrow \<and> subseq narrow wide)"
proof -
  have a: "subseq (filter (spec_matches lc t u d p) rows) (filter (spec_matches lc t [] d p) rows)"
    by (rule subseq_filter_stronger) (simp add: spec_matches_def spec_selected_def)
  have b: "subseq (filter (spec_matches lc t u d p) rows) (filter (spec_matches lc t u [] p) rows)"
    by (rule subseq_filter_stronger) (simp add: spec_matches_def spec_selected_def)
  have c: "subseq (filter (spec_matches lc t u d p) rows) (filter (spec_matches lc t u d []) rows)"
    by (rule subseq_filter_stronger) (simp add: spec_matches_def spec_selected_def)
  from a b c show ?thesis
    by (simp add: filteredData_filter)
qed

text \<open>C6. The statistics of no rows are all zero; the average is the literal \<open>0\<close> of
  the guard, where the division of the empty sum by the length would give \<^verbatim>\<open>NaN\<close>.\<close>
theorem stats_empty:
  "stats [] = \<lparr> totalPrograms = 0, uniqueUniversities = 0, uniqueDepartments = 0,
                avgMatricula = Finite 0 \<rparr>
   \<and> divide_js (Finite 0) (length ([] :: item list)) = NaN"
  by (simp add: stats_def new_Set_def)

text \<open>C4. On a non-empty list of rows the average is the sum of the tuitions, a missing
  one counting as \<open>0\<close>, divided by the number of rows, in the arithmetic of the program:
  the tuitions are added to \<open>0\<close> from left to right and the sum is divided by the
  length, each operation rounded to a double. In the example the selection of
  institution X keeps A and B, whose statistics are 2 rows, 1 institution, 2 regions and
  the average 1500.\<close>
theorem stats_mean:
  "(view \<noteq> [] \<longrightarrow>
      avgMatricula (stats view) = divide_js (double_sum (map spec_tuition view)) (length view))
   \<and> filteredData lc example_rows [] (str ''X'') [] [] = Inr [row_A, row_B]
   \<and> stats [row_A, row_B] = \<lparr> totalPrograms = 2, uniqueUniversities = 1, uniqueDepartments = 2,
                                 avgMatricula = Finite 1500 \<rparr>"
proof (intro conjI impI)
  assume "view \<noteq> []"
  then show "avgMatricula (stats view)
      = divide_js (double_sum (map spec_tuition view)) (length view)"
    by (simp add: avgMatricula_stats foldl_or_zero double_sum_def)
next
  show "filteredData lc example_rows [] (str ''X'') [] [] = Inr [row_A, row_B]"
    by (rule example_select_X)
next
  have "round_double (3000 / 2) = Finite 1500"
    using round_double_small(4) by simp
  then show "stats [row_A, row_B] = \<lparr> totalPrograms = 2, uniqueUniversities = 1,
      uniqueDepartments = 2, avgMatricula = Finite 1500 \<rparr>"
    by (simp add: stats_def new_Set_def Set_add_def row_A_def row_B_def str_example
        round_double_small)
qed

theorem stats_mean_witness:
  "[row_A, row_C] \<noteq> [] \<and> avgMatricula (stats [row_A, row_C]) = Finite 500"
proof -
  have "avgMatricula (stats [row_A, row_C])
      = divide_js (double_sum (map spec_tuition [row_A, row_C])) (length [row_A, row_C])"
    by (rule stats_mean [THEN conjunct1, THEN mp]) simp
  moreover have "round_double (1000 / 2) = Finite 500"
    using round_double_small(2) by simp
  then have "divide_js (double_sum (map spec_tuition [row_A, row_C])) (length [row_A, row_C])
      = Finite 500"
    by (simp add: double_sum_def spec_tuition_def row_A_def row_C_def round_double_small)
  ultimately show ?thesis by simp
qed

text \<open>C2. Each of the three option lists holds the distinct values of its column over
  all rows of the data, each once: its string entries are the distinct strings in
  ascending order, as the specification has them, and a missing value is an entry too
  (\<^verbatim>\<open>undefined\<close> last, \<^verbatim>\<open>null\<close> placed as the string \<^verbatim>\<open>null\<close>) when some row has
  such a cell. The lists are computed from the data alone: no handler of the filter
  fields changes them.\<close>
theorem option_lists:
  "lists_values_of (universities rows) NOMBRE_IES rows
   \<and> lists_values_of (departments rows) DEPARTAMENTO rows
   \<and> lists_values_of (programs rows) NOMBRE_DEL_PROGRAMA rows
   \<and> shown_options (foldl handle st acts) = shown_options st"
  by (simp add: universities_def departments_def programs_def sort_js_new_Set_lists
      shown_options_handle)

text \<open>With a row that has no institution, the option list of the institutions ends in
  \<^verbatim>\<open>undefined\<close>, where the list of the specification has the two strings only.\<close>

theorem universities_lists_undefined:
  "universities (example_rows @ [row_absent]) = [Val (str ''X''), Val (str ''Y''), Undefined]
   \<and> map Val (spec_facetValues NOMBRE_IES (example_rows @ [row_absent]))
       = [Val (str ''X''), Val (str ''Y'')]"
  by code_simp

text \<open>C8. The number of institutions is the number of distinct values of the
  \<^verbatim>\<open>NOMBRE_IES\<close> cells of the view, and the number of regions that of the
  \<^verbatim>\<open>DEPARTAMENTO\<close> cells, where all absent cells are one value and all \<^verbatim>\<open>null\<close> cells
  are one value, and the two are different values. When a column of the view does not
  have both kinds of missing cell, the number is that of the distinct optional
  values.\<close>
theorem stats_distinct_counts:
  "uniqueUniversities (stats view) = card (NOMBRE_IES ` set view)
   \<and> uniqueDepartments (stats view) = card (DEPARTAMENTO ` set view)
   \<and> (Undefined \<notin> NOMBRE_IES ` set view \<or> Null \<notin> NOMBRE_IES ` set view \<longrightarrow>
        uniqueUniversities (stats view) = card (spec_optional ` NOMBRE_IES ` set view))
   \<and> (Undefined \<notin> DEPARTAMENTO ` set view \<or> Null \<notin> DEPARTAMENTO ` set view \<longrightarrow>
        uniqueDepartments (stats view) = card (spec_optional ` DEPARTAMENTO ` set view))"
proof (intro conjI impI)
  show u: "uniqueUniversities (stats view) = card (NOMBRE_IES ` set view)"
    by (simp add: stats_def length_new_Set)
  show d: "uniqueDepartments (stats view) = card (DEPARTAMENTO ` set view)"
    by (simp add: stats_def length_new_Set)
  assume "Undefined \<notin> NOMBRE_IES ` set view \<or> Null \<notin> NOMBRE_IES ` set view"
  then show "uniqueUniversities (stats view) = card (spec_optional ` NOMBRE_IES ` set view)"
    using u by (simp only: card_spec_optional)
next
  assume "Undefined \<notin> DEPARTAMENTO ` set view \<or> Null \<notin> DEPARTAMENTO ` set view"
  then show "uniqueDepartments (stats view) = card (spec_optional ` DEPARTAMENTO ` set view)"
    by (simp only: card_spec_optional) (simp add: stats_def length_new_Set)
qed

theorem stats_distinct_counts_witness:
  "Null \<notin> NOMBRE_IES ` set [row_A, row_absent, row_B, row_absent]
   \<and> Null \<notin> DEPARTAMENTO ` set [row_A, row_absent, row_B, row_absent]
   \<and> uniqueUniversities (stats [row_A, row_absent, row_B, row_absent]) = 2
   \<and> card (spec_optional ` NOMBRE_IES ` set [row_A, row_absent, row_B, row_absent]) = 2
   \<and> uniqueDepartments (stats [row_A, row_absent, row_B, row_absent]) = 3
   \<and> card (spec_optional ` DEPARTAMENTO ` set [row_A, row_absent, row_B, row_absent]) = 3"
proof -
  let ?v = "[row_A, row_absent, row_B, row_absent]"
  have n: "Null \<notin> NOMBRE_IES ` set ?v" "Null \<notin> DEPARTAMENTO ` set ?v"
    by (simp_all add: row_A_def row_B_def row_absent_def)
  have "length (new_Set (map NOMBRE_IES ?v)) = 2" "length (new_Set (map DEPARTAMENTO ?v)) = 3"
    by code_simp+
  then have u: "uniqueUniversities (stats ?v) = 2" and d: "uniqueDepartments (stats ?v) = 3"
    by (simp_all only: uniqueUniversities_stats uniqueDepartments_stats)
  from n u d stats_distinct_counts [of ?v] show ?thesis
    by simp
qed

text \<open>A view of one row with absent cells and one row with \<^verbatim>\<open>null\<close> cells has two
  institutions, where the missing cells read as one optional value give one.\<close>

theorem distinct_count_null_and_undefined:
  "uniqueUniversities (stats [row_absent, row_null]) = 2
   \<and> card (spec_optional ` NOMBRE_IES ` set [row_absent, row_null]) = 1"
  by (simp add: uniqueUniversities_stats new_Set_def Set_add_def row_absent_def row_null_def
      spec_optional_def)

text \<open>C7. On rows with any cells missing, filtering returns a result and raises nothing;
  an absent or \<^verbatim>\<open>null\<close> cell does not contain the search term, so rows with all cells
  missing match no non-empty search term; such a cell adds the number \<open>0\<close> to the sum of
  the tuitions; and the option lists hold the values of all cells, the missing ones
  included.\<close>
theorem missing_cells_total:
  "(\<exists>out. filteredData lc rows t u d p = Inr out)
   \<and> field_includes lc Undefined t = Inr False
   \<and> field_includes lc Null t = Inr False
   \<and> filteredData lc [row_absent, row_null] (c # t) u d p = Inr []
   \<and> set (universities rows) = NOMBRE_IES ` set rows
   \<and> set (departments rows) = DEPARTAMENTO ` set rows
   \<and> set (programs rows) = NOMBRE_DEL_PROGRAMA ` set rows
   \<and> or_zero Undefined = 0
   \<and> or_zero Null = 0
   \<and> foldl (\<lambda>sum item. add_js sum (Finite (or_zero (VALOR_MATRICULA item)))) acc
        [row_absent, row_null] = add_js (add_js acc (Finite 0)) (Finite 0)
   \<and> stats [row_absent, row_null]
       = \<lparr> totalPrograms = 2, uniqueUniversities = 2, uniqueDepartments = 2,
           avgMatricula = Finite 0 \<rparr>"
proof (intro conjI)
  show "\<exists>out. filteredData lc rows t u d p = Inr out"
    by (simp add: filteredData_filter)
  show "filteredData lc [row_absent, row_null] (c # t) u d p = Inr []"
    by (simp add: filteredData_filter spec_matches_def spec_contains_def
        row_absent_def row_null_def)
  show "set (universities rows) = NOMBRE_IES ` set rows"
    by (simp add: universities_def set_sort_js set_new_Set)
  show "set (departments rows) = DEPARTAMENTO ` set rows"
    by (simp add: departments_def set_sort_js set_new_Set)
  show "set (programs rows) = NOMBRE_DEL_PROGRAMA ` set rows"
    by (simp add: programs_def set_sort_js set_new_Set)
  show "foldl (\<lambda>sum item. add_js sum (Finite (or_zero (VALOR_MATRICULA item)))) acc
        [row_absent, row_null] = add_js (add_js acc (Finite 0)) (Finite 0)"
    by (simp add: row_absent_def row_null_def)
  show "stats [row_absent, row_null]
       = \<lparr> totalPrograms = 2, uniqueUniversities = 2, uniqueDepartments = 2,
           avgMatricula = Finite 0 \<rparr>"
    by (simp add: stats_def new_Set_def Set_add_def row_absent_def row_null_def round_double_def)
qed (simp_all add: field_includes_def)

text \<open>In the example of the specification no row has a program name, and the option
  list of the programs is the one entry \<^verbatim>\<open>undefined\<close>.\<close>

theorem programs_example_undefined:
  "programs example_rows = [Undefined]
   \<and> spec_facetValues NOMBRE_DEL_PROGRAMA example_rows = []"
  by code_simp

end
